theory Spec2Isabelle
  imports Complex_Main "HOL-Library.Sublist" "HOL-Library.Multiset"
begin

section \<open>Strings\<close>

text \<open>
  A Python \<open>str\<close> and a PostgreSQL \<open>TEXT\<close> value are modelled as a \<open>string\<close>, one
  \<open>char\<close> per character. The model covers ASCII text: \<open>isspace\<close> is the set of ASCII
  characters for which Python's \<open>str.isspace\<close> holds, and \<open>lower_char\<close> folds the letters
  \<open>A\<close> to \<open>Z\<close>, which is what both Python's \<open>str.lower\<close> and PostgreSQL's \<open>LOWER\<close> do on
  ASCII text. An uploaded file's content is a list of bytes.
\<close>

type_synonym bytes = "char list"

definition isspace :: "char \<Rightarrow> bool" where
  "isspace c = (c \<in> set [CHR 0x09, CHR 0x0A, CHR 0x0B, CHR 0x0C, CHR 0x0D,
                          CHR 0x1C, CHR 0x1D, CHR 0x1E, CHR 0x1F, CHR 0x20])"

text \<open>\<^verbatim>\<open>s.strip()\<close>: leading and trailing whitespace removed.\<close>

definition strip :: "string \<Rightarrow> string" where
  "strip s = rev (dropWhile isspace (rev (dropWhile isspace s)))"

definition lower_char :: "char \<Rightarrow> char" where
  "lower_char c =
     (case map_of (zip ''ABCDEFGHIJKLMNOPQRSTUVWXYZ'' ''abcdefghijklmnopqrstuvwxyz'') c of
        None \<Rightarrow> c
      | Some d \<Rightarrow> d)"

text \<open>\<^verbatim>\<open>s.lower()\<close> in Python, \<^verbatim>\<open>LOWER(s)\<close> in SQL.\<close>

definition lower :: "string \<Rightarrow> string" where
  "lower s = map lower_char s"

text \<open>Truthiness of a \<^verbatim>\<open>str | None\<close> value: \<open>None\<close> and the empty string are false.\<close>

definition truthy :: "string option \<Rightarrow> bool" where
  "truthy v = (case v of None \<Rightarrow> False | Some s \<Rightarrow> s \<noteq> [])"

text \<open>
  \<^verbatim>\<open>os.path.join(a, b)\<close> for two components (POSIX): an absolute \<open>b\<close> replaces \<open>a\<close>,
  otherwise the two are joined with one separator.
\<close>

definition os_path_join :: "string \<Rightarrow> string \<Rightarrow> string" where
  "os_path_join a b =
     (if b \<noteq> [] \<and> hd b = CHR ''/'' then b
      else if a = [] \<or> last a = CHR ''/'' then a @ b
      else a @ ''/'' @ b)"

definition UPLOAD_DIR :: string where
  "UPLOAD_DIR = ''uploads''"

section \<open>SQL pattern matching\<close>

text \<open>
  \<^verbatim>\<open>s LIKE p\<close> as PostgreSQL evaluates it: \<open>%\<close> matches any run of characters, \<open>_\<close> any
  one character, and a backslash makes the next pattern character literal. PostgreSQL
  raises an error for a pattern that ends in an unescaped backslash while text remains;
  the patterns of this program end in \<open>%\<close>, so that case (the \<open>False\<close> of the
  backslash branch) is never reached: see \<open>dangling_escape_wrapped\<close>.
\<close>

fun like_match :: "string \<Rightarrow> string \<Rightarrow> bool" where
  "like_match [] [] = True"
| "like_match [] (x # s) = False"
| "like_match (c # p) [] = (c = CHR ''%'' \<and> like_match p [])"
| "like_match (c # p) (x # s) =
     (if c = CHR ''%'' then like_match p (x # s) \<or> like_match (c # p) s
      else if c = CHR ''_'' then like_match p s
      else if c = CHR 0x5C then
        (case p of [] \<Rightarrow> False | d # p' \<Rightarrow> x = d \<and> like_match p' s)
      else x = c \<and> like_match p s)"

text \<open>Whether scanning a pattern ends on a backslash that escapes nothing.\<close>

fun dangling_escape :: "string \<Rightarrow> bool" where
  "dangling_escape [] = False"
| "dangling_escape [c] = (c = CHR 0x5C)"
| "dangling_escape (c # d # p) =
     (if c = CHR 0x5C then dangling_escape p else dangling_escape (d # p))"

section \<open>Data model\<close>

text \<open>
  A row of the table \<open>books\<close> (the column \<open>created_at\<close> is never read by the program
  and is left out). \<open>title\<close> and \<open>author\<close> are \<open>NOT NULL\<close>; \<open>publisher\<close> and
  \<open>cover_image_path\<close> are nullable, \<open>None\<close> is SQL's \<open>NULL\<close>.
\<close>

record books_row =
  row_id :: int
  row_title :: string
  row_author :: string
  row_publisher :: "string option"
  row_cover_image_path :: "string option"

text \<open>The pydantic models \<open>Book\<close> and \<open>SearchResponse\<close>.\<close>

record Book =
  book_id :: int
  title :: string
  author :: string
  publisher :: "string option"
  cover_image_path :: "string option"

record SearchResponse =
  total :: int
  page :: int
  page_size :: int
  total_pages :: int
  results :: "Book list"

text \<open>An uploaded file (\<open>UploadFile\<close>): its file name, which may be missing, and its content.\<close>

record UploadFile =
  filename :: "string option"
  file_content :: bytes

text \<open>
  The state the routes share: the table \<open>books\<close> in insertion order, the next value of
  the sequence behind \<open>id SERIAL\<close>, and the files written so far, newest first (a log of
  the writes, read as a file system by \<open>map_of\<close>).
\<close>

record state =
  books :: "books_row list"
  books_id_seq :: int
  files :: "(string \<times> bytes) list"

definition init_state :: state where
  "init_state = \<lparr>books = [], books_id_seq = 1, files = []\<rparr>"

text \<open>
  The three ways a request fails: FastAPI rejects a parameter that breaks its
  declaration before the route's body runs (status 422); pydantic raises
  \<open>ValidationError\<close> when the body builds a \<open>Book\<close> that breaks the model's constraints;
  and the database rejects a statement whose \<open>LIMIT\<close> or \<open>OFFSET\<close> is not a
  non-negative \<open>bigint\<close>, which \<^verbatim>\<open>cur.execute\<close> raises as an error of psycopg. The last
  two are exceptions in the body (status 500). Failures of the database connection and
  of the disk are outside the model.
\<close>

datatype error = RequestValidationError | ValidationError | DatabaseError

definition status_code :: "nat \<Rightarrow> error + 'a \<Rightarrow> nat" where
  "status_code ok r =
     (case r of Inr _ \<Rightarrow> ok
      | Inl RequestValidationError \<Rightarrow> 422
      | Inl ValidationError \<Rightarrow> 500
      | Inl DatabaseError \<Rightarrow> 500)"

section \<open>Validation\<close>

text \<open>\<^verbatim>\<open>min_length=lo, max_length=hi\<close> on a string, as declared on a parameter or a field.\<close>

definition length_ok :: "nat \<Rightarrow> nat \<Rightarrow> string \<Rightarrow> bool" where
  "length_ok lo hi s = (lo \<le> length s \<and> length s \<le> hi)"

text \<open>
  \<^verbatim>\<open>Form(...)\<close>: a required string with no further constraint. The declarations of
  the parameters are read as written: a value is checked as it was sent, without
  trimming, and a field that was sent is never taken for a missing one.
\<close>

definition Form_required :: "string option \<Rightarrow> error + string" where
  "Form_required raw = (case raw of None \<Rightarrow> Inl RequestValidationError | Some s \<Rightarrow> Inr s)"

text \<open>\<^verbatim>\<open>Form(None, min_length=lo, max_length=hi)\<close>: an optional string, checked when given.\<close>

definition Form_optional :: "nat \<Rightarrow> nat \<Rightarrow> string option \<Rightarrow> error + string option" where
  "Form_optional lo hi raw =
     (case raw of None \<Rightarrow> Inr None
      | Some s \<Rightarrow> if length_ok lo hi s then Inr (Some s) else Inl RequestValidationError)"

text \<open>\<^verbatim>\<open>Query(..., min_length=lo, max_length=hi)\<close>: a required string, checked as received.\<close>

definition Query_str :: "nat \<Rightarrow> nat \<Rightarrow> string option \<Rightarrow> error + string" where
  "Query_str lo hi raw =
     (case raw of None \<Rightarrow> Inl RequestValidationError
      | Some s \<Rightarrow> if length_ok lo hi s then Inr s else Inl RequestValidationError)"

text \<open>
  \<^verbatim>\<open>Query(d, ge=lo)\<close> and \<^verbatim>\<open>Query(d, ge=lo, le=hi)\<close>: an integer with a default, used
  unchecked when the parameter is not given; the upper bound is optional.
\<close>

definition Query_int :: "int \<Rightarrow> int \<Rightarrow> int option \<Rightarrow> int option \<Rightarrow> error + int" where
  "Query_int d lo hi raw =
     (case raw of None \<Rightarrow> Inr d
      | Some n \<Rightarrow>
          if n < lo \<or> (case hi of None \<Rightarrow> False | Some h \<Rightarrow> h < n)
          then Inl RequestValidationError else Inr n)"

text \<open>
  \<^verbatim>\<open>Book(id=..., title=..., author=..., publisher=..., cover_image_path=...)\<close>: the
  constructor checks the declared field constraints and raises \<open>ValidationError\<close> when
  one is broken.
\<close>

definition Book_constraints :: "string \<Rightarrow> string \<Rightarrow> string option \<Rightarrow> bool" where
  "Book_constraints t a p =
     (length_ok 3 100 t \<and> length_ok 3 100 a \<and>
      (case p of None \<Rightarrow> True | Some s \<Rightarrow> length_ok 3 100 s))"

definition make_Book ::
  "int \<Rightarrow> string \<Rightarrow> string \<Rightarrow> string option \<Rightarrow> string option \<Rightarrow> error + Book" where
  "make_Book i t a p c =
     (if Book_constraints t a p
      then Inr \<lparr>book_id = i, title = t, author = a, publisher = p, cover_image_path = c\<rparr>
      else Inl ValidationError)"

text \<open>\<^verbatim>\<open>Book(id=r[0], title=r[1], author=r[2], publisher=r[3], cover_image_path=r[4])\<close>\<close>

definition Book_of_row :: "books_row \<Rightarrow> error + Book" where
  "Book_of_row r =
     make_Book (row_id r) (row_title r) (row_author r) (row_publisher r)
       (row_cover_image_path r)"

text \<open>The list comprehension over the fetched rows: the first bad row raises.\<close>

fun Books_of_rows :: "books_row list \<Rightarrow> error + Book list" where
  "Books_of_rows [] = Inr []"
| "Books_of_rows (r # rs) =
     (case Book_of_row r of
        Inl e \<Rightarrow> Inl e
      | Inr b \<Rightarrow> (case Books_of_rows rs of Inl e \<Rightarrow> Inl e | Inr bs \<Rightarrow> Inr (b # bs)))"

section \<open>The SQL statements\<close>

text \<open>
  SQL's three-valued logic: a condition is \<open>Some True\<close>, \<open>Some False\<close> or \<open>None\<close>
  (unknown, the value of any comparison with \<open>NULL\<close>). \<open>LOWER\<close> and \<open>LIKE\<close> return
  \<open>NULL\<close> on \<open>NULL\<close>; \<open>OR\<close> is true when one side is, false when both are, unknown
  otherwise; \<open>WHERE\<close> keeps the rows whose condition is true.
\<close>

definition sql_LOWER :: "string option \<Rightarrow> string option" where
  "sql_LOWER v = map_option lower v"

definition sql_LIKE :: "string option \<Rightarrow> string \<Rightarrow> bool option" where
  "sql_LIKE v pat = map_option (like_match pat) v"

definition sql_OR :: "bool option \<Rightarrow> bool option \<Rightarrow> bool option" where
  "sql_OR a b =
     (if a = Some True \<or> b = Some True then Some True
      else if a = Some False \<and> b = Some False then Some False
      else None)"

text \<open>
  \<^verbatim>\<open>WHERE LOWER(title) LIKE %s OR LOWER(author) LIKE %s OR LOWER(publisher) LIKE %s\<close>,
  the three parameters being the same pattern.
\<close>

definition search_where :: "string \<Rightarrow> books_row \<Rightarrow> bool" where
  "search_where pat r =
     (sql_OR
        (sql_OR (sql_LIKE (sql_LOWER (Some (row_title r))) pat)
                (sql_LIKE (sql_LOWER (Some (row_author r))) pat))
        (sql_LIKE (sql_LOWER (row_publisher r)) pat)
      = Some True)"

text \<open>\<^verbatim>\<open>SELECT COUNT(*)\<close> over the selected rows.\<close>

definition sql_COUNT :: "books_row list \<Rightarrow> int" where
  "sql_COUNT rows = int (length rows)"

text \<open>
  \<^verbatim>\<open>ORDER BY id LIMIT %s OFFSET %s\<close>. The primary key makes the ids distinct, so the
  order is the one sorting gives, and \<open>ordered_page\<close> is the rows the statement returns
  when it runs. PostgreSQL takes \<open>LIMIT\<close> and \<open>OFFSET\<close> as \<open>bigint\<close>: Python's integers
  are unbounded, and a parameter that is negative or above \<open>2^63 - 1\<close> makes the
  statement fail.
\<close>

definition bigint_max :: int where
  "bigint_max = 9223372036854775807"

definition ordered_page :: "int \<Rightarrow> int \<Rightarrow> books_row list \<Rightarrow> books_row list" where
  "ordered_page limit_v offset_v rows =
     take (nat limit_v) (drop (nat offset_v) (sort_key row_id rows))"

definition order_by_id_limit_offset ::
  "int \<Rightarrow> int \<Rightarrow> books_row list \<Rightarrow> error + books_row list" where
  "order_by_id_limit_offset limit_v offset_v rows =
     (if 0 \<le> limit_v \<and> limit_v \<le> bigint_max \<and> 0 \<le> offset_v \<and> offset_v \<le> bigint_max
      then Inr (ordered_page limit_v offset_v rows)
      else Inl DatabaseError)"

section \<open>The routes\<close>

text \<open>
  \<^verbatim>\<open>POST /books\<close>. The arguments are the form fields as the request gives them (\<open>None\<close>
  when a field is missing), the uploaded file, and the value \<^verbatim>\<open>str(uuid.uuid4())\<close> draws.
  The body writes the file when one is supplied, inserts the row and commits, and only
  then builds the \<open>Book\<close> it returns.
\<close>

definition save_cover_image :: "string \<Rightarrow> UploadFile option \<Rightarrow> state \<Rightarrow> string option \<times> state" where
  "save_cover_image uuid4 cover_image st =
     (case cover_image of
        None \<Rightarrow> (None, st)
      | Some f \<Rightarrow>
          if truthy (filename f) then
            (let file_name = uuid4 @ ''_'' @ the (filename f);
                 file_path = os_path_join UPLOAD_DIR file_name;
                 content = file_content f
             in (Some file_path, st\<lparr>files := (file_path, content) # files st\<rparr>))
          else (None, st))"

definition insert_book ::
  "string \<Rightarrow> string \<Rightarrow> string option \<Rightarrow> string option \<Rightarrow> state \<Rightarrow> int \<times> state" where
  "insert_book t a p c st =
     (let new_id = books_id_seq st in
      (new_id,
       st\<lparr>books := books st @
             [\<lparr>row_id = new_id, row_title = t, row_author = a, row_publisher = p,
               row_cover_image_path = c\<rparr>],
           books_id_seq := new_id + 1\<rparr>))"

definition add_book_body ::
  "string \<Rightarrow> string \<Rightarrow> string \<Rightarrow> string option \<Rightarrow> UploadFile option \<Rightarrow> state
     \<Rightarrow> (error + Book) \<times> state" where
  "add_book_body uuid4 title_v author_v publisher_v cover_image st =
     (let (cover_path, st1) = save_cover_image uuid4 cover_image st;
          publisher_value = (if truthy publisher_v then Some (strip (the publisher_v)) else None);
          (new_id, st2) = insert_book (strip title_v) (strip author_v) publisher_value cover_path st1
      in (make_Book new_id (strip title_v) (strip author_v) publisher_value cover_path, st2))"

definition add_book ::
  "string \<Rightarrow> string option \<Rightarrow> string option \<Rightarrow> string option \<Rightarrow> UploadFile option \<Rightarrow> state
     \<Rightarrow> (error + Book) \<times> state" where
  "add_book uuid4 title_f author_f publisher_f cover_image st =
     (case Form_required title_f of
        Inl e \<Rightarrow> (Inl e, st)
      | Inr title_v \<Rightarrow>
     (case Form_required author_f of
        Inl e \<Rightarrow> (Inl e, st)
      | Inr author_v \<Rightarrow>
     (case Form_optional 3 100 publisher_f of
        Inl e \<Rightarrow> (Inl e, st)
      | Inr publisher_v \<Rightarrow> add_book_body uuid4 title_v author_v publisher_v cover_image st)))"

text \<open>The response of a page of rows, shared by the two reading routes (lines 113 to 122
  and 151 to 160 of the source are the same).\<close>

definition page_response :: "int \<Rightarrow> int \<Rightarrow> int \<Rightarrow> books_row list \<Rightarrow> error + SearchResponse" where
  "page_response total_v page_v page_size_v rows =
     (case Books_of_rows rows of
        Inl e \<Rightarrow> Inl e
      | Inr bks \<Rightarrow>
          Inr \<lparr>total = total_v, page = page_v, page_size = page_size_v,
               total_pages = (total_v + page_size_v - 1) div page_size_v,
               results = bks\<rparr>)"

text \<open>\<^verbatim>\<open>GET /books\<close>. The state is only read.\<close>

definition get_all_books_body :: "int \<Rightarrow> int \<Rightarrow> state \<Rightarrow> error + SearchResponse" where
  "get_all_books_body page_v page_size_v st =
     (let offset = (page_v - 1) * page_size_v;
          total_v = sql_COUNT (books st)
      in case order_by_id_limit_offset page_size_v offset (books st) of
           Inl e \<Rightarrow> Inl e
         | Inr rows \<Rightarrow> page_response total_v page_v page_size_v rows)"

definition get_all_books :: "int option \<Rightarrow> int option \<Rightarrow> state \<Rightarrow> error + SearchResponse" where
  "get_all_books page_q page_size_q st =
     (case Query_int 1 1 None page_q of
        Inl e \<Rightarrow> Inl e
      | Inr page_v \<Rightarrow>
     (case Query_int 10 1 (Some 50) page_size_q of
        Inl e \<Rightarrow> Inl e
      | Inr page_size_v \<Rightarrow> get_all_books_body page_v page_size_v st))"

text \<open>\<^verbatim>\<open>GET /books/search\<close>. The state is only read.\<close>

definition search_books_body :: "string \<Rightarrow> int \<Rightarrow> int \<Rightarrow> state \<Rightarrow> error + SearchResponse" where
  "search_books_body query page_v page_size_v st =
     (let offset = (page_v - 1) * page_size_v;
          query_lower = ''%'' @ lower (strip query) @ ''%'';
          total_v = sql_COUNT (filter (search_where query_lower) (books st))
      in case order_by_id_limit_offset page_size_v offset
                (filter (search_where query_lower) (books st)) of
           Inl e \<Rightarrow> Inl e
         | Inr rows \<Rightarrow> page_response total_v page_v page_size_v rows)"

definition search_books ::
  "string option \<Rightarrow> int option \<Rightarrow> int option \<Rightarrow> state \<Rightarrow> error + SearchResponse" where
  "search_books query_q page_q page_size_q st =
     (case Query_str 3 100 query_q of
        Inl e \<Rightarrow> Inl e
      | Inr query \<Rightarrow>
     (case Query_int 1 1 None page_q of
        Inl e \<Rightarrow> Inl e
      | Inr page_v \<Rightarrow>
     (case Query_int 10 1 (Some 50) page_size_q of
        Inl e \<Rightarrow> Inl e
      | Inr page_size_v \<Rightarrow> search_books_body query page_v page_size_v st)))"

section \<open>Vocabulary of the properties\<close>

text \<open>
  A stored row satisfies the constraints of the \<open>Book\<close> model, and the \<open>Book\<close> such a
  row is returned as.
\<close>

definition row_valid :: "books_row \<Rightarrow> bool" where
  "row_valid r = Book_constraints (row_title r) (row_author r) (row_publisher r)"

definition row_as_Book :: "books_row \<Rightarrow> Book" where
  "row_as_Book r =
     \<lparr>book_id = row_id r, title = row_title r, author = row_author r,
      publisher = row_publisher r, cover_image_path = row_cover_image_path r\<rparr>"

text \<open>No cover image is supplied: the file is absent, or its file name is missing or empty.\<close>

definition no_file_supplied :: "UploadFile option \<Rightarrow> bool" where
  "no_file_supplied cover_image =
     (case cover_image of None \<Rightarrow> True | Some f \<Rightarrow> filename f = None \<or> filename f = Some [])"

text \<open>The characters that \<open>LIKE\<close> does not read literally.\<close>

definition like_special :: "char \<Rightarrow> bool" where
  "like_special c = (c = CHR ''%'' \<or> c = CHR ''_'' \<or> c = CHR 0x5C)"

text \<open>
  The matching rule in the specification's words, to be compared with \<open>search_where\<close>:
  the lowercased search string appears as a substring of the lowercased title, author or
  publisher; a match on one field suffices.
\<close>

definition spec_substring_match :: "string \<Rightarrow> books_row \<Rightarrow> bool" where
  "spec_substring_match q r =
     (sublist (lower q) (lower (row_title r)) \<or>
      sublist (lower q) (lower (row_author r)) \<or>
      (case row_publisher r of None \<Rightarrow> False | Some p \<Rightarrow> sublist (lower q) (lower p)))"

section \<open>Example states\<close>

text \<open>
  A table of three books, stored out of id order, one with a cover image; the concrete
  state the general theorems below are instantiated at.
\<close>

definition example_state :: state where
  "example_state =
     \<lparr>books =
        [\<lparr>row_id = 2, row_title = ''Emma'', row_author = ''Jane Austen'',
          row_publisher = None, row_cover_image_path = None\<rparr>,
         \<lparr>row_id = 1, row_title = ''Dune'', row_author = ''Frank Herbert'',
          row_publisher = Some ''Ace'', row_cover_image_path = None\<rparr>,
         \<lparr>row_id = 3, row_title = ''Ulysses'', row_author = ''James Joyce'',
          row_publisher = None, row_cover_image_path = Some ''uploads/u_cover.png''\<rparr>],
      books_id_seq = 4, files = [(''uploads/u_cover.png'', ''PNG'')]\<rparr>"

section \<open>Reading a response back\<close>

lemma Books_of_rows_length: "Books_of_rows rows = Inr bs \<Longrightarrow> length bs = length rows"
  by (induction rows arbitrary: bs) (auto split: sum.splits)

lemma page_response_Inr:
  assumes "page_response t p s rows = Inr resp"
  shows "total resp = t" and "page resp = p" and "page_size resp = s"
    and "total_pages resp = (t + s - 1) div s" and "Books_of_rows rows = Inr (results resp)"
  using assms by (auto simp: page_response_def split: sum.splits)

lemma Query_int_Inr:
  "Query_int d lo hi raw = Inr v \<Longrightarrow>
     (raw = None \<and> v = d) \<or> (raw = Some v \<and> lo \<le> v \<and> (case hi of None \<Rightarrow> True | Some h \<Rightarrow> v \<le> h))"
  by (auto simp: Query_int_def split: option.splits if_splits)

lemma get_all_books_Inr:
  assumes "get_all_books page_q page_size_q st = Inr resp"
  obtains page_v page_size_v where
    "Query_int 1 1 None page_q = Inr page_v"
    "Query_int 10 1 (Some 50) page_size_q = Inr page_size_v"
    "get_all_books_body page_v page_size_v st = Inr resp"
  using assms by (auto simp: get_all_books_def split: sum.splits)

lemma search_books_Inr:
  assumes "search_books query_q page_q page_size_q st = Inr resp"
  obtains query page_v page_size_v where
    "Query_str 3 100 query_q = Inr query"
    "Query_int 1 1 None page_q = Inr page_v"
    "Query_int 10 1 (Some 50) page_size_q = Inr page_size_v"
    "search_books_body query page_v page_size_v st = Inr resp"
  using assms by (auto simp: search_books_def split: sum.splits)

lemma page_bounds:
  assumes "Query_int 1 1 None page_q = Inr page_v"
  shows "1 \<le> page_v"
  using Query_int_Inr[OF assms] by auto

lemma page_size_bounds:
  assumes "Query_int 10 1 (Some 50) page_size_q = Inr page_size_v"
  shows "1 \<le> page_size_v \<and> page_size_v \<le> 50"
  using Query_int_Inr[OF assms] by auto

lemma ceiling_div_int:
  fixes t s :: int
  assumes "1 \<le> s"
  shows "(t + s - 1) div s = - (- t div s)"
proof -
  define q where "q = (- t) div s"
  define r where "r = (- t) mod s"
  have r: "0 \<le> r" "r < s" using assms by (simp_all add: r_def)
  have "- t = s * q + r" by (simp add: q_def r_def)
  then have "t + s - 1 = s * (- q) + (s - 1 - r)" by (simp add: algebra_simps)
  moreover have "0 \<le> s - 1 - r" "s - 1 - r < s" using r by simp_all
  ultimately have "(t + s - 1) div s = - q" by (rule int_div_pos_eq)
  then show ?thesis by (simp add: q_def)
qed

lemma ceiling_div:
  fixes t s :: int
  assumes "1 \<le> s"
  shows "(t + s - 1) div s = \<lceil>real_of_int t / real_of_int s\<rceil>"
  using ceiling_div_int[OF assms] by (simp add: ceiling_divide_eq_div)

text \<open>What the body of either reading route returns, in terms of the rows it selected.\<close>

lemma get_all_books_body_page_response:
  assumes "get_all_books_body page_v page_size_v st = Inr resp"
  shows "page_response (sql_COUNT (books st)) page_v page_size_v
           (ordered_page page_size_v ((page_v - 1) * page_size_v) (books st)) = Inr resp"
  using assms
  by (auto simp: get_all_books_body_def Let_def order_by_id_limit_offset_def
      split: sum.splits if_splits)

lemma search_books_body_page_response:
  assumes "search_books_body query page_v page_size_v st = Inr resp"
  shows "page_response
           (sql_COUNT (filter (search_where (''%'' @ lower (strip query) @ ''%'')) (books st)))
           page_v page_size_v
           (ordered_page page_size_v ((page_v - 1) * page_size_v)
              (filter (search_where (''%'' @ lower (strip query) @ ''%'')) (books st))) = Inr resp"
  using assms
  by (auto simp: search_books_body_def Let_def order_by_id_limit_offset_def
      split: sum.splits if_splits)

lemma get_all_books_body_Inr:
  assumes "get_all_books_body page_v page_size_v st = Inr resp"
  shows "total resp = int (length (books st))"
    and "page resp = page_v" and "page_size resp = page_size_v"
    and "total_pages resp = (total resp + page_size_v - 1) div page_size_v"
    and "Books_of_rows (ordered_page page_size_v ((page_v - 1) * page_size_v) (books st))
           = Inr (results resp)"
  using page_response_Inr[OF get_all_books_body_page_response[OF assms]]
  by (simp_all add: sql_COUNT_def)

lemma search_books_body_Inr:
  assumes "search_books_body query page_v page_size_v st = Inr resp"
  shows "total resp = int (length (filter (search_where (''%'' @ lower (strip query) @ ''%'')) (books st)))"
    and "page resp = page_v" and "page_size resp = page_size_v"
    and "total_pages resp = (total resp + page_size_v - 1) div page_size_v"
    and "Books_of_rows (ordered_page page_size_v ((page_v - 1) * page_size_v)
           (filter (search_where (''%'' @ lower (strip query) @ ''%'')) (books st)))
           = Inr (results resp)"
  using page_response_Inr[OF search_books_body_page_response[OF assms]]
  by (simp_all add: sql_COUNT_def)

lemma ordered_page_Nil: "ordered_page l off [] = []"
  by (simp add: ordered_page_def)

lemma Books_of_rows_Nil: "Books_of_rows [] = Inr bs \<Longrightarrow> bs = []"
  by simp

section \<open>Pagination arithmetic\<close>

text \<open>
  C3. In every response of the list route and of the search route, \<open>total_pages\<close> is
  \<open>(total + page_size - 1) div page_size\<close>, which is the ceiling of
  \<open>total / page_size\<close>; the total is at least 0 and the page size at least 1; and
  when the total is 0, \<open>total_pages\<close> is 0 and the list of results is empty.
\<close>

theorem C3_total_pages_ceiling:
  assumes "get_all_books page_q page_size_q st = Inr resp
           \<or> search_books query_q page_q page_size_q st = Inr resp"
  shows "0 \<le> total resp \<and> 1 \<le> page_size resp
         \<and> total_pages resp = (total resp + page_size resp - 1) div page_size resp
         \<and> total_pages resp = \<lceil>real_of_int (total resp) / real_of_int (page_size resp)\<rceil>
         \<and> (total resp = 0 \<longrightarrow> total_pages resp = 0 \<and> results resp = [])"
  using assms
proof
  assume "get_all_books page_q page_size_q st = Inr resp"
  then obtain page_v page_size_v where
    ps: "Query_int 10 1 (Some 50) page_size_q = Inr page_size_v"
    and body: "get_all_books_body page_v page_size_v st = Inr resp"
    by (rule get_all_books_Inr)
  note b = get_all_books_body_Inr[OF body]
  have s: "1 \<le> page_size resp" using page_size_bounds[OF ps] b(3) by simp
  have t: "0 \<le> total resp" using b(1) by simp
  have tp: "total_pages resp = (total resp + page_size resp - 1) div page_size resp"
    using b(3,4) by simp
  have empty: "results resp = []" if "total resp = 0"
  proof -
    from that b(1) have "books st = []" by simp
    with b(5) show ?thesis by (simp add: ordered_page_Nil)
  qed
  have zero: "total_pages resp = 0" if "total resp = 0"
    using that tp s by simp
  show ?thesis using s t tp ceiling_div[OF s, of "total resp"] empty zero by simp
next
  assume "search_books query_q page_q page_size_q st = Inr resp"
  then obtain query page_v page_size_v where
    ps: "Query_int 10 1 (Some 50) page_size_q = Inr page_size_v"
    and body: "search_books_body query page_v page_size_v st = Inr resp"
    by (rule search_books_Inr)
  note b = search_books_body_Inr[OF body]
  have s: "1 \<le> page_size resp" using page_size_bounds[OF ps] b(3) by simp
  have t: "0 \<le> total resp" using b(1) by simp
  have tp: "total_pages resp = (total resp + page_size resp - 1) div page_size resp"
    using b(3,4) by simp
  have empty: "results resp = []" if "total resp = 0"
  proof -
    from that b(1)
    have "filter (search_where (''%'' @ lower (strip query) @ ''%'')) (books st) = []" by simp
    with b(5) show ?thesis by (simp add: ordered_page_Nil)
  qed
  have zero: "total_pages resp = 0" if "total resp = 0"
    using that tp s by simp
  show ?thesis using s t tp ceiling_div[OF s, of "total resp"] empty zero by simp
qed

text \<open>The second page of two of the example table, and a search that matches nothing.\<close>

lemma ex_list: "get_all_books (Some 2) (Some 2) example_state =
     Inr \<lparr>total = 3, page = 2, page_size = 2, total_pages = 2,
          results = [\<lparr>book_id = 3, title = ''Ulysses'', author = ''James Joyce'',
                      publisher = None, cover_image_path = Some ''uploads/u_cover.png''\<rparr>]\<rparr>"
  by code_simp

lemma ex_search: "search_books (Some ''xyz'') None None example_state =
       Inr \<lparr>total = 0, page = 1, page_size = 10, total_pages = 0, results = []\<rparr>"
  by code_simp

theorem C3_total_pages_ceiling_witness:
  "get_all_books (Some 2) (Some 2) example_state =
     Inr \<lparr>total = 3, page = 2, page_size = 2, total_pages = 2,
          results = [\<lparr>book_id = 3, title = ''Ulysses'', author = ''James Joyce'',
                      publisher = None, cover_image_path = Some ''uploads/u_cover.png''\<rparr>]\<rparr>
   \<and> (2::int) = \<lceil>real_of_int 3 / real_of_int 2\<rceil>
   \<and> search_books (Some ''xyz'') None None example_state =
       Inr \<lparr>total = 0, page = 1, page_size = 10, total_pages = 0, results = []\<rparr>
   \<and> (0::int) = \<lceil>real_of_int 0 / real_of_int 10\<rceil>"
proof -
  note l = C3_total_pages_ceiling[OF disjI1, OF ex_list]
  note s = C3_total_pages_ceiling[OF disjI2, OF ex_search]
  show ?thesis using l s ex_list ex_search by simp
qed


text \<open>
  Building the list of \<open>Book\<close>s succeeds exactly when every fetched row satisfies the
  model's constraints, and then returns the rows field by field.
\<close>

lemma Books_of_rows_iff:
  "Books_of_rows rows = (if list_all row_valid rows then Inr (map row_as_Book rows) else Inl ValidationError)"
  by (induction rows) (simp_all add: Book_of_row_def make_Book_def row_valid_def row_as_Book_def)


lemma length_ordered_page:
  "0 \<le> l \<Longrightarrow> int (length (ordered_page l off rows)) \<le> l"
  by (simp add: ordered_page_def)

section \<open>Page size\<close>

text \<open>
  C9. In every response of the list route and of the search route, the number of
  returned books is at most the page size of the response, whatever the table holds.
\<close>

theorem C9_results_at_most_page_size:
  assumes "get_all_books page_q page_size_q st = Inr resp
           \<or> search_books query_q page_q page_size_q st = Inr resp"
  shows "int (length (results resp)) \<le> page_size resp"
  using assms
proof
  assume "get_all_books page_q page_size_q st = Inr resp"
  then obtain page_v page_size_v where
    ps: "Query_int 10 1 (Some 50) page_size_q = Inr page_size_v"
    and body: "get_all_books_body page_v page_size_v st = Inr resp"
    by (rule get_all_books_Inr)
  note b = get_all_books_body_Inr[OF body]
  have "length (results resp) =
        length (ordered_page page_size_v ((page_v - 1) * page_size_v) (books st))"
    using Books_of_rows_length[OF b(5)] .
  then show ?thesis
    using length_ordered_page[of page_size_v] page_size_bounds[OF ps] b(3) by simp
next
  assume "search_books query_q page_q page_size_q st = Inr resp"
  then obtain query page_v page_size_v where
    ps: "Query_int 10 1 (Some 50) page_size_q = Inr page_size_v"
    and body: "search_books_body query page_v page_size_v st = Inr resp"
    by (rule search_books_Inr)
  note b = search_books_body_Inr[OF body]
  have "length (results resp) =
        length (ordered_page page_size_v ((page_v - 1) * page_size_v)
                 (filter (search_where (''%'' @ lower (strip query) @ ''%'')) (books st)))"
    using Books_of_rows_length[OF b(5)] .
  then show ?thesis
    using length_ordered_page[of page_size_v] page_size_bounds[OF ps] b(3) by simp
qed

text \<open>The first page of two of the example table, and a search with page size 1.\<close>

lemma ex_list_first: "get_all_books None (Some 2) example_state =
     Inr \<lparr>total = 3, page = 1, page_size = 2, total_pages = 2,
          results = [\<lparr>book_id = 1, title = ''Dune'', author = ''Frank Herbert'',
                      publisher = Some ''Ace'', cover_image_path = None\<rparr>,
                     \<lparr>book_id = 2, title = ''Emma'', author = ''Jane Austen'',
                      publisher = None, cover_image_path = None\<rparr>]\<rparr>"
  by code_simp

lemma ex_search_jane: "search_books (Some ''JAN'') (Some 1) (Some 1) example_state =
     Inr \<lparr>total = 1, page = 1, page_size = 1, total_pages = 1,
          results = [\<lparr>book_id = 2, title = ''Emma'', author = ''Jane Austen'',
                      publisher = None, cover_image_path = None\<rparr>]\<rparr>"
  by code_simp

theorem C9_results_at_most_page_size_witness:
  "get_all_books None (Some 2) example_state =
     Inr \<lparr>total = 3, page = 1, page_size = 2, total_pages = 2,
          results = [\<lparr>book_id = 1, title = ''Dune'', author = ''Frank Herbert'',
                      publisher = Some ''Ace'', cover_image_path = None\<rparr>,
                     \<lparr>book_id = 2, title = ''Emma'', author = ''Jane Austen'',
                      publisher = None, cover_image_path = None\<rparr>]\<rparr>
   \<and> int (length [\<lparr>book_id = 1, title = ''Dune'', author = ''Frank Herbert'',
                      publisher = Some ''Ace'', cover_image_path = None\<rparr>,
                     \<lparr>book_id = 2, title = ''Emma'', author = ''Jane Austen'',
                      publisher = None, cover_image_path = None\<rparr>]) \<le> 2
   \<and> search_books (Some ''JAN'') (Some 1) (Some 1) example_state =
     Inr \<lparr>total = 1, page = 1, page_size = 1, total_pages = 1,
          results = [\<lparr>book_id = 2, title = ''Emma'', author = ''Jane Austen'',
                      publisher = None, cover_image_path = None\<rparr>]\<rparr>
   \<and> int (length [\<lparr>book_id = 2, title = ''Emma'', author = ''Jane Austen'',
                      publisher = None, cover_image_path = None\<rparr>]) \<le> 1"
proof -
  note l = C9_results_at_most_page_size[OF disjI1, OF ex_list_first]
  note s = C9_results_at_most_page_size[OF disjI2, OF ex_search_jane]
  show ?thesis using l s ex_list_first ex_search_jane by simp
qed

section \<open>Listing\<close>






lemma ex_list_beyond: "get_all_books (Some 3) (Some 2) example_state =
     Inr \<lparr>total = 3, page = 3, page_size = 2, total_pages = 2, results = []\<rparr>"
  by code_simp



section \<open>Pattern matching\<close>

lemma like_match_percent_any: "like_match ''%'' s"
  by (induction s) simp_all

lemma like_match_percent:
  "like_match (CHR ''%'' # p) s \<longleftrightarrow> (\<exists>t. suffix t s \<and> like_match p t)"
proof (induction s)
  case Nil
  then show ?case by simp
next
  case (Cons x s)
  then show ?case by (auto simp: suffix_Cons)
qed

lemma like_match_literal:
  assumes "\<forall>c\<in>set q. \<not> like_special c"
  shows "like_match (q @ p) s \<longleftrightarrow> (\<exists>t. s = q @ t \<and> like_match p t)"
  using assms
proof (induction q arbitrary: s)
  case Nil
  then show ?case by simp
next
  case (Cons c q)
  then have c: "c \<noteq> CHR ''%''" "c \<noteq> CHR ''_''" "c \<noteq> CHR 0x5C"
    and q: "\<forall>c\<in>set q. \<not> like_special c"
    by (auto simp: like_special_def)
  show ?case
  proof (cases s)
    case Nil
    then show ?thesis using c by simp
  next
    case (Cons x s')
    then show ?thesis using c Cons.IH[OF q, of s'] by auto
  qed
qed

lemma like_match_wrapped_literal:
  assumes "\<forall>c\<in>set q. \<not> like_special c"
  shows "like_match (''%'' @ q @ ''%'') s \<longleftrightarrow> sublist q s"
proof -
  have "like_match (''%'' @ q @ ''%'') s \<longleftrightarrow> (\<exists>t. suffix t s \<and> like_match (q @ ''%'') t)"
    using like_match_percent[of "q @ ''%''" s] by simp
  also have "\<dots> \<longleftrightarrow> (\<exists>t. suffix t s \<and> (\<exists>u. t = q @ u))"
    using like_match_literal[OF assms, of "''%''"] like_match_percent_any by simp
  also have "\<dots> \<longleftrightarrow> sublist q s"
    by (auto simp: suffix_def sublist_def)
  finally show ?thesis .
qed

lemma dangling_escape_wrapped: "\<not> dangling_escape (p @ ''%'')"
  by (induction p rule: dangling_escape.induct) simp_all

lemma search_where_iff:
  "search_where pat r \<longleftrightarrow>
     like_match pat (lower (row_title r)) \<or> like_match pat (lower (row_author r)) \<or>
     (case row_publisher r of None \<Rightarrow> False | Some p \<Rightarrow> like_match pat (lower p))"
  by (cases "row_publisher r")
     (auto simp: search_where_def sql_OR_def sql_LIKE_def sql_LOWER_def)

lemma lower_char_special: "like_special (lower_char c) \<longleftrightarrow> like_special c"
  by (simp add: lower_char_def like_special_def)


lemma lower_special: "(\<forall>c\<in>set (lower q). \<not> like_special c) \<longleftrightarrow> (\<forall>c\<in>set q. \<not> like_special c)"
  by (simp add: lower_def lower_char_special)

lemma Query_str_Inr: "Query_str lo hi raw = Inr q \<Longrightarrow> raw = Some q \<and> length_ok lo hi q"
  by (auto simp: Query_str_def split: option.splits if_splits)

lemma set_ordered_page:
  "set (ordered_page l off rows) \<subseteq> set rows"
proof -
  have "set (take (nat l) (drop (nat off) (sort_key row_id rows))) \<subseteq> set (sort_key row_id rows)"
    by (meson set_take_subset set_drop_subset subset_trans)
  then show ?thesis by (simp add: ordered_page_def)
qed

text \<open>What a search response holds, in terms of the pattern the route builds.\<close>

lemma search_books_response:
  assumes "search_books query_q page_q page_size_q st = Inr resp"
  obtains query where "query_q = Some query" and "length_ok 3 100 query"
    and "total resp =
           int (length (filter (search_where (''%'' @ lower (strip query) @ ''%'')) (books st)))"
    and "list_all row_valid
           (take (nat (page_size resp)) (drop (nat ((page resp - 1) * page_size resp))
             (sort_key row_id
               (filter (search_where (''%'' @ lower (strip query) @ ''%'')) (books st)))))"
    and "results resp = map row_as_Book
           (take (nat (page_size resp)) (drop (nat ((page resp - 1) * page_size resp))
             (sort_key row_id
               (filter (search_where (''%'' @ lower (strip query) @ ''%'')) (books st)))))"
proof -
  from assms obtain query page_v page_size_v where
    q: "Query_str 3 100 query_q = Inr query"
    and body: "search_books_body query page_v page_size_v st = Inr resp"
    by (rule search_books_Inr)
  note b = search_books_body_Inr[OF body]
  let ?rows = "take (nat (page_size resp)) (drop (nat ((page resp - 1) * page_size resp))
             (sort_key row_id
               (filter (search_where (''%'' @ lower (strip query) @ ''%'')) (books st))))"
  from b(5) have rows: "Books_of_rows ?rows = Inr (results resp)"
    by (simp add: ordered_page_def b(2,3))
  then have "list_all row_valid ?rows" "results resp = map row_as_Book ?rows"
    by (auto simp: Books_of_rows_iff split: if_splits)
  with Query_str_Inr[OF q] b(1) that show ?thesis by blast
qed

section \<open>Searching\<close>

text \<open>
  C10. A row whose publisher is \<open>NULL\<close> satisfies the search condition exactly when its
  lowercased title or its lowercased author matches the pattern, for every pattern: the
  comparison with the publisher is unknown and adds nothing. So every book with no
  publisher that a search returns matches the pattern by its title or its author.
\<close>

theorem C10_null_publisher_no_match:
  "(row_publisher r = None \<longrightarrow>
      sql_LIKE (sql_LOWER (row_publisher r)) pat = None \<and>
      (search_where pat r \<longleftrightarrow>
         like_match pat (lower (row_title r)) \<or> like_match pat (lower (row_author r))))
   \<and> (search_books (Some query) page_q page_size_q st = Inr resp \<longrightarrow>
        (\<forall>b\<in>set (results resp). publisher b = None \<longrightarrow>
           like_match (''%'' @ lower (strip query) @ ''%'') (lower (title b)) \<or>
           like_match (''%'' @ lower (strip query) @ ''%'') (lower (author b))))"
proof (intro conjI impI ballI)
  assume "row_publisher r = None"
  then show "sql_LIKE (sql_LOWER (row_publisher r)) pat = None"
    by (simp add: sql_LIKE_def sql_LOWER_def)
next
  assume "row_publisher r = None"
  then show "search_where pat r \<longleftrightarrow>
         like_match pat (lower (row_title r)) \<or> like_match pat (lower (row_author r))"
    by (simp add: search_where_iff)
next
  fix b
  let ?pat = "''%'' @ lower (strip query) @ ''%''"
  assume resp: "search_books (Some query) page_q page_size_q st = Inr resp"
    and b: "b \<in> set (results resp)" and null: "publisher b = None"
  from resp obtain query' where "Some query = Some query'"
    and res: "results resp = map row_as_Book
           (take (nat (page_size resp)) (drop (nat ((page resp - 1) * page_size resp))
             (sort_key row_id
               (filter (search_where (''%'' @ lower (strip query') @ ''%'')) (books st)))))"
    by (rule search_books_response)
  then have res': "results resp = map row_as_Book
           (take (nat (page_size resp)) (drop (nat ((page resp - 1) * page_size resp))
             (sort_key row_id (filter (search_where ?pat) (books st)))))"
    by simp
  from b obtain r' where r': "b = row_as_Book r'"
    and "r' \<in> set (take (nat (page_size resp)) (drop (nat ((page resp - 1) * page_size resp))
             (sort_key row_id (filter (search_where ?pat) (books st)))))"
    unfolding res' by auto
  then have "r' \<in> set (sort_key row_id (filter (search_where ?pat) (books st)))"
    by (meson in_set_takeD in_set_dropD)
  then have "search_where ?pat r'" by simp
  moreover have "row_publisher r' = None" using null r' by (simp add: row_as_Book_def)
  ultimately have "like_match ?pat (lower (row_title r')) \<or> like_match ?pat (lower (row_author r'))"
    by (simp add: search_where_iff)
  then show "like_match ?pat (lower (title b)) \<or> like_match ?pat (lower (author b))"
    using r' by (simp add: row_as_Book_def)
qed

text \<open>
  The book "Emma" of the example table has no publisher: the search for "emm" returns
  it, through its title; the pattern for "ace" does not match it.
\<close>

lemma ex_search_emm: "search_books (Some ''emm'') None None example_state =
     Inr \<lparr>total = 1, page = 1, page_size = 10, total_pages = 1,
          results = [\<lparr>book_id = 2, title = ''Emma'', author = ''Jane Austen'',
                      publisher = None, cover_image_path = None\<rparr>]\<rparr>"
  by code_simp

lemma ex_emma_title: "like_match ''%emm%'' (lower ''Emma'')"
  by code_simp

lemma ex_emma_not_ace:
  "\<not> like_match ''%ace%'' (lower ''Emma'')" "\<not> like_match ''%ace%'' (lower ''Jane Austen'')"
  by code_simp+

theorem C10_null_publisher_no_match_witness:
  "search_books (Some ''emm'') None None example_state =
     Inr \<lparr>total = 1, page = 1, page_size = 10, total_pages = 1,
          results = [\<lparr>book_id = 2, title = ''Emma'', author = ''Jane Austen'',
                      publisher = None, cover_image_path = None\<rparr>]\<rparr>
   \<and> like_match ''%emm%'' (lower ''Emma'')
   \<and> \<not> search_where ''%ace%''
         \<lparr>row_id = 2, row_title = ''Emma'', row_author = ''Jane Austen'',
          row_publisher = None, row_cover_image_path = None\<rparr>"
proof -
  note t = C10_null_publisher_no_match[of
      "\<lparr>row_id = 2, row_title = ''Emma'', row_author = ''Jane Austen'',
        row_publisher = None, row_cover_image_path = None\<rparr>" "''%ace%''"
      "''emm''" None None example_state
      "\<lparr>total = 1, page = 1, page_size = 10, total_pages = 1,
          results = [\<lparr>book_id = 2, title = ''Emma'', author = ''Jane Austen'',
                      publisher = None, cover_image_path = None\<rparr>]\<rparr>"]
  show ?thesis using t ex_search_emm ex_emma_title ex_emma_not_ace by simp
qed

text \<open>
  C4, as stated, fails: the search string is handed to \<open>LIKE\<close> unescaped, so \<open>_\<close> and
  \<open>%\<close> in it are wildcards. The search for "d_n" counts and returns "Dune", although
  "d_n" is a substring of no field of any book of the example table.
\<close>

theorem C4_wildcard_counterexample:
  "search_books (Some ''d_n'') None None example_state =
     Inr \<lparr>total = 1, page = 1, page_size = 10, total_pages = 1,
          results = [\<lparr>book_id = 1, title = ''Dune'', author = ''Frank Herbert'',
                      publisher = Some ''Ace'', cover_image_path = None\<rparr>]\<rparr>
   \<and> \<not> spec_substring_match ''d_n''
         \<lparr>row_id = 1, row_title = ''Dune'', row_author = ''Frank Herbert'',
          row_publisher = Some ''Ace'', row_cover_image_path = None\<rparr>
   \<and> filter (spec_substring_match ''d_n'') (books example_state) = []"
  by code_simp

text \<open>
  C4, amended. A search counts and returns, in id order, exactly the rows for which the
  pattern \<open>%q%\<close> matches the lowercased title, author or (non-null) publisher, where \<open>q\<close>
  is the trimmed, lowercased search string read as a \<open>LIKE\<close> pattern. When the trimmed
  search string has no \<open>%\<close>, no \<open>_\<close> and no backslash, these are exactly the rows in
  which the lowercased search string is a substring of the lowercased title, author or
  publisher; matching does not depend on case.
\<close>

theorem C4_search_matches_like_pattern:
  assumes "search_books (Some query) page_q page_size_q st = Inr resp"
  shows "total resp =
           int (length (filter (search_where (''%'' @ lower (strip query) @ ''%'')) (books st)))
       \<and> results resp = map row_as_Book
           (take (nat (page_size resp)) (drop (nat ((page resp - 1) * page_size resp))
             (sort_key row_id
               (filter (search_where (''%'' @ lower (strip query) @ ''%'')) (books st)))))
       \<and> (\<forall>r. search_where (''%'' @ lower (strip query) @ ''%'') r \<longleftrightarrow>
              like_match (''%'' @ lower (strip query) @ ''%'') (lower (row_title r)) \<or>
              like_match (''%'' @ lower (strip query) @ ''%'') (lower (row_author r)) \<or>
              (case row_publisher r of None \<Rightarrow> False
               | Some p \<Rightarrow> like_match (''%'' @ lower (strip query) @ ''%'') (lower p)))
       \<and> ((\<forall>c\<in>set (strip query). \<not> like_special c) \<longrightarrow>
            (\<forall>r. search_where (''%'' @ lower (strip query) @ ''%'') r \<longleftrightarrow>
                   spec_substring_match (strip query) r) \<and>
            total resp = int (length (filter (spec_substring_match (strip query)) (books st))) \<and>
            results resp = map row_as_Book
              (take (nat (page_size resp)) (drop (nat ((page resp - 1) * page_size resp))
                (sort_key row_id (filter (spec_substring_match (strip query)) (books st))))))"
proof -
  let ?pat = "''%'' @ lower (strip query) @ ''%''"
  from assms obtain query' where "Some query = Some query'"
    and "total resp =
           int (length (filter (search_where (''%'' @ lower (strip query') @ ''%'')) (books st)))"
    and "results resp = map row_as_Book
           (take (nat (page_size resp)) (drop (nat ((page resp - 1) * page_size resp))
             (sort_key row_id
               (filter (search_where (''%'' @ lower (strip query') @ ''%'')) (books st)))))"
    by (rule search_books_response)
  then have tot: "total resp = int (length (filter (search_where ?pat) (books st)))"
    and res: "results resp = map row_as_Book
           (take (nat (page_size resp)) (drop (nat ((page resp - 1) * page_size resp))
             (sort_key row_id (filter (search_where ?pat) (books st)))))"
    by simp_all
  have like: "search_where ?pat r \<longleftrightarrow>
              like_match ?pat (lower (row_title r)) \<or> like_match ?pat (lower (row_author r)) \<or>
              (case row_publisher r of None \<Rightarrow> False | Some p \<Rightarrow> like_match ?pat (lower p))" for r
    by (rule search_where_iff)
  have literal: "search_where ?pat r \<longleftrightarrow> spec_substring_match (strip query) r"
    if "\<forall>c\<in>set (strip query). \<not> like_special c" for r
  proof -
    from that have "\<forall>c\<in>set (lower (strip query)). \<not> like_special c"
      by (simp add: lower_special)
    then have "like_match ?pat s \<longleftrightarrow> sublist (lower (strip query)) s" for s
      by (rule like_match_wrapped_literal)
    then show ?thesis
      by (simp add: search_where_iff spec_substring_match_def split: option.splits)
  qed
  have same: "filter (search_where ?pat) (books st) =
              filter (spec_substring_match (strip query)) (books st)"
    if "\<forall>c\<in>set (strip query). \<not> like_special c"
    using literal[OF that] by (simp cong: filter_cong)
  show ?thesis
  proof (intro conjI impI allI)
    show "total resp = int (length (filter (search_where ?pat) (books st)))" by (rule tot)
    show "results resp = map row_as_Book
           (take (nat (page_size resp)) (drop (nat ((page resp - 1) * page_size resp))
             (sort_key row_id (filter (search_where ?pat) (books st)))))" by (rule res)
    show "search_where ?pat r \<longleftrightarrow>
              like_match ?pat (lower (row_title r)) \<or> like_match ?pat (lower (row_author r)) \<or>
              (case row_publisher r of None \<Rightarrow> False | Some p \<Rightarrow> like_match ?pat (lower p))" for r
      by (rule like)
    show "search_where ?pat r \<longleftrightarrow> spec_substring_match (strip query) r"
      if "\<forall>c\<in>set (strip query). \<not> like_special c" for r
      using that by (rule literal)
    show "total resp = int (length (filter (spec_substring_match (strip query)) (books st)))"
      if "\<forall>c\<in>set (strip query). \<not> like_special c"
      using tot same[OF that] by simp
    show "results resp = map row_as_Book
              (take (nat (page_size resp)) (drop (nat ((page resp - 1) * page_size resp))
                (sort_key row_id (filter (spec_substring_match (strip query)) (books st)))))"
      if "\<forall>c\<in>set (strip query). \<not> like_special c"
      using res same[OF that] by simp
  qed
qed

text \<open>The search for "DUN", in capitals, finds "Dune" in the example table.\<close>

lemma ex_search_DUN: "search_books (Some ''DUN'') None None example_state =
     Inr \<lparr>total = 1, page = 1, page_size = 10, total_pages = 1,
          results = [\<lparr>book_id = 1, title = ''Dune'', author = ''Frank Herbert'',
                      publisher = Some ''Ace'', cover_image_path = None\<rparr>]\<rparr>"
  by code_simp

lemma ex_DUN_literal: "\<forall>c\<in>set (strip ''DUN''). \<not> like_special c"
  by code_simp

lemma ex_DUN_matching:
  "filter (spec_substring_match (strip ''DUN'')) (books example_state) =
     [\<lparr>row_id = 1, row_title = ''Dune'', row_author = ''Frank Herbert'',
       row_publisher = Some ''Ace'', row_cover_image_path = None\<rparr>]"
  by code_simp

theorem C4_search_matches_like_pattern_witness:
  "search_books (Some ''DUN'') None None example_state =
     Inr \<lparr>total = 1, page = 1, page_size = 10, total_pages = 1,
          results = [\<lparr>book_id = 1, title = ''Dune'', author = ''Frank Herbert'',
                      publisher = Some ''Ace'', cover_image_path = None\<rparr>]\<rparr>
   \<and> (1::int) = int (length (filter (spec_substring_match (strip ''DUN'')) (books example_state)))
   \<and> filter (spec_substring_match (strip ''DUN'')) (books example_state) =
     [\<lparr>row_id = 1, row_title = ''Dune'', row_author = ''Frank Herbert'',
       row_publisher = Some ''Ace'', row_cover_image_path = None\<rparr>]"
proof -
  note t = C4_search_matches_like_pattern[OF ex_search_DUN]
  show ?thesis using t ex_search_DUN ex_DUN_literal ex_DUN_matching by simp
qed

text \<open>
  C5, as stated, fails: the length of the search string is checked as received, before
  it is trimmed. The string " u " has length 3 and is accepted; trimmed, it has length 1,
  and the search runs with the pattern \<open>%u%\<close>.
\<close>

theorem C5_short_after_trim_counterexample:
  "length (strip '' u '') = 1
   \<and> search_books (Some '' u '') None None example_state =
     Inr \<lparr>total = 3, page = 1, page_size = 10, total_pages = 1,
          results = [\<lparr>book_id = 1, title = ''Dune'', author = ''Frank Herbert'',
                      publisher = Some ''Ace'', cover_image_path = None\<rparr>,
                     \<lparr>book_id = 2, title = ''Emma'', author = ''Jane Austen'',
                      publisher = None, cover_image_path = None\<rparr>,
                     \<lparr>book_id = 3, title = ''Ulysses'', author = ''James Joyce'',
                      publisher = None, cover_image_path = Some ''uploads/u_cover.png''\<rparr>]\<rparr>"
  by code_simp

text \<open>
  C5, amended. The search string is required, and its length as received, before
  trimming, must be 3 to 100: a missing, shorter or longer string is rejected with a
  client error (status 422). An accepted string is trimmed and lowercased before it is
  used for matching: the response depends on it only through its trimmed, lowercased
  form, and counts the rows that match the pattern built from that form.
\<close>

theorem C5_query_checked_as_received:
  "(search_books None page_q page_size_q st = Inl RequestValidationError)
   \<and> status_code 200 (search_books None page_q page_size_q st) = 422
   \<and> (length q < 3 \<or> 100 < length q \<longrightarrow>
        search_books (Some q) page_q page_size_q st = Inl RequestValidationError \<and>
        status_code 200 (search_books (Some q) page_q page_size_q st) = 422)
   \<and> (3 \<le> length q \<and> length q \<le> 100 \<and> 3 \<le> length q' \<and> length q' \<le> 100 \<and>
        lower (strip q) = lower (strip q') \<longrightarrow>
        search_books (Some q) page_q page_size_q st = search_books (Some q') page_q page_size_q st)
   \<and> (search_books (Some q) page_q page_size_q st = Inr resp \<longrightarrow>
        3 \<le> length q \<and> length q \<le> 100 \<and>
        total resp =
          int (length (filter (search_where (''%'' @ lower (strip q) @ ''%'')) (books st))))"
proof (intro conjI impI)
  show none: "search_books None page_q page_size_q st = Inl RequestValidationError"
    by (simp add: search_books_def Query_str_def)
  then show "status_code 200 (search_books None page_q page_size_q st) = 422"
    by (simp add: status_code_def)
next
  assume "length q < 3 \<or> 100 < length q"
  then show bad: "search_books (Some q) page_q page_size_q st = Inl RequestValidationError"
    by (auto simp: search_books_def Query_str_def length_ok_def)
  then show "status_code 200 (search_books (Some q) page_q page_size_q st) = 422"
    by (simp add: status_code_def)
next
  assume "3 \<le> length q \<and> length q \<le> 100 \<and> 3 \<le> length q' \<and> length q' \<le> 100 \<and>
        lower (strip q) = lower (strip q')"
  then have ok: "Query_str 3 100 (Some q) = Inr q" "Query_str 3 100 (Some q') = Inr q'"
    and body: "search_books_body q pg psz st = search_books_body q' pg psz st" for pg psz
    by (simp_all add: Query_str_def length_ok_def search_books_body_def)
  show "search_books (Some q) page_q page_size_q st = search_books (Some q') page_q page_size_q st"
    by (simp add: search_books_def ok body split: sum.splits)
next
  assume resp: "search_books (Some q) page_q page_size_q st = Inr resp"
  then obtain query where q: "Some q = Some query" and len: "length_ok 3 100 query"
    and tot: "total resp =
           int (length (filter (search_where (''%'' @ lower (strip query) @ ''%'')) (books st)))"
    by (rule search_books_response)
  from q len show "3 \<le> length q" "length q \<le> 100" by (simp_all add: length_ok_def)
  from q tot show "total resp =
          int (length (filter (search_where (''%'' @ lower (strip q) @ ''%'')) (books st)))"
    by simp
qed

text \<open>"Hi" is rejected; "  DuN " is accepted and searched as "dun" is.\<close>

lemma ex_search_dun: "search_books (Some ''dun'') None None example_state =
     Inr \<lparr>total = 1, page = 1, page_size = 10, total_pages = 1,
          results = [\<lparr>book_id = 1, title = ''Dune'', author = ''Frank Herbert'',
                      publisher = Some ''Ace'', cover_image_path = None\<rparr>]\<rparr>"
  by code_simp

lemma ex_DuN_trimmed: "lower (strip ''  DuN '') = lower (strip ''dun'')"
  by code_simp

theorem C5_query_checked_as_received_witness:
  "search_books (Some ''Hi'') None None example_state = Inl RequestValidationError
   \<and> status_code 200 (search_books (Some ''Hi'') None None example_state) = 422
   \<and> search_books (Some ''  DuN '') None None example_state =
     Inr \<lparr>total = 1, page = 1, page_size = 10, total_pages = 1,
          results = [\<lparr>book_id = 1, title = ''Dune'', author = ''Frank Herbert'',
                      publisher = Some ''Ace'', cover_image_path = None\<rparr>]\<rparr>"
proof -
  note short = C5_query_checked_as_received[of None None example_state "''Hi''"]
  note same = C5_query_checked_as_received[of None None example_state "''  DuN ''" "''dun''"]
  show ?thesis using short same ex_search_dun ex_DuN_trimmed by simp
qed

section \<open>Creating a book\<close>

text \<open>
  \<open>strip\<close> removes a run of whitespace at each end and nothing else, and what is left
  neither starts nor ends with whitespace.
\<close>

lemma strip_decompose:
  "s = takeWhile isspace s @ strip s @ rev (takeWhile isspace (rev (dropWhile isspace s)))"
proof -
  have "dropWhile isspace s =
        rev (dropWhile isspace (rev (dropWhile isspace s))) @
        rev (takeWhile isspace (rev (dropWhile isspace s)))"
    by (metis rev_append rev_rev_ident takeWhile_dropWhile_id)
  then have "takeWhile isspace s @ dropWhile isspace s =
        takeWhile isspace s @ strip s @ rev (takeWhile isspace (rev (dropWhile isspace s)))"
    by (simp add: strip_def)
  then show ?thesis by simp
qed

lemma strip_trims:
  "\<exists>l r. s = l @ strip s @ r \<and> list_all isspace l \<and> list_all isspace r"
proof -
  have "list_all isspace (takeWhile isspace s)"
    and "list_all isspace (rev (takeWhile isspace (rev (dropWhile isspace s))))"
    by (auto simp: list_all_iff dest: set_takeWhileD)
  with strip_decompose[of s] show ?thesis by blast
qed

lemma strip_ends:
  assumes "strip s \<noteq> []"
  shows "\<not> isspace (hd (strip s))" and "\<not> isspace (last (strip s))"
proof -
  let ?d = "dropWhile isspace s"
  let ?e = "dropWhile isspace (rev ?d)"
  from assms have e: "?e \<noteq> []" by (simp add: strip_def)
  then have d: "?d \<noteq> []" by (metis dropWhile.simps(1) rev.simps(1))
  have "last (strip s) = hd ?e" using e by (simp add: strip_def last_rev)
  then show "\<not> isspace (last (strip s))" using e hd_dropWhile[of isspace "rev ?d"] by simp
  have "\<not> isspace (hd ?d)" using d by (rule hd_dropWhile)
  then have "\<not> isspace (last (rev ?d))" using d by (simp add: last_rev)
  have "rev ?d = takeWhile isspace (rev ?d) @ ?e" by simp
  then have "last (rev ?d) = last ?e" using e by (metis last_appendR)
  then have "hd (strip s) = hd ?d" using e d by (simp add: strip_def hd_rev last_rev)
  then show "\<not> isspace (hd (strip s))" using \<open>\<not> isspace (hd ?d)\<close> by simp
qed

text \<open>The body of the route, step by step: the file, the row, the \<open>Book\<close>.\<close>

lemma save_cover_image_none:
  "no_file_supplied cover_image \<Longrightarrow> save_cover_image uuid4 cover_image st = (None, st)"
  by (auto simp: no_file_supplied_def save_cover_image_def truthy_def split: option.splits)

lemma save_cover_image_frame:
  "books (snd (save_cover_image uuid4 cover_image st)) = books st"
  "books_id_seq (snd (save_cover_image uuid4 cover_image st)) = books_id_seq st"
  by (simp_all add: save_cover_image_def Let_def split: option.splits)

lemma add_book_body_eq:
  "add_book_body uuid4 t a p cover_image st =
     (make_Book (books_id_seq st) (strip t) (strip a)
        (if truthy p then Some (strip (the p)) else None)
        (fst (save_cover_image uuid4 cover_image st)),
      (snd (save_cover_image uuid4 cover_image st))
        \<lparr>books := books st @
           [\<lparr>row_id = books_id_seq st, row_title = strip t, row_author = strip a,
             row_publisher = (if truthy p then Some (strip (the p)) else None),
             row_cover_image_path = fst (save_cover_image uuid4 cover_image st)\<rparr>],
         books_id_seq := books_id_seq st + 1\<rparr>)"
proof -
  obtain cp st1 where s: "save_cover_image uuid4 cover_image st = (cp, st1)"
    by fastforce
  with save_cover_image_frame[of uuid4 cover_image st]
  have "books st1 = books st" "books_id_seq st1 = books_id_seq st" by simp_all
  with s show ?thesis by (simp add: add_book_body_def insert_book_def Let_def)
qed

lemma add_book_accepted:
  assumes "Form_optional 3 100 publisher_f = Inr p"
  shows "add_book uuid4 (Some t) (Some a) publisher_f cover_image st =
         add_book_body uuid4 t a p cover_image st"
  using assms by (simp add: add_book_def Form_required_def)

lemma add_book_Inr:
  assumes "add_book uuid4 title_f author_f publisher_f cover_image st = (Inr b, st')"
  obtains t a where "title_f = Some t" and "author_f = Some a"
    and "Form_optional 3 100 publisher_f = Inr publisher_f"
    and "add_book_body uuid4 t a publisher_f cover_image st = (Inr b, st')"
  using assms
  by (auto simp: add_book_def Form_required_def Form_optional_def
      split: option.splits sum.splits if_splits)


lemma add_book_split:
  obtains (rejected)
    "\<And>u ci. add_book u title_f author_f publisher_f ci st = (Inl RequestValidationError, st)"
  | (accepted) t a where "title_f = Some t" and "author_f = Some a"
    and "Form_optional 3 100 publisher_f = Inr publisher_f"
    and "\<And>u ci. add_book u title_f author_f publisher_f ci st =
                  add_book_body u t a publisher_f ci st"
  by (cases title_f; cases author_f; cases "Form_optional 3 100 publisher_f")
     (auto simp: add_book_def Form_required_def Form_optional_def
        split: option.splits if_splits)

lemma cover_path_eq:
  "fst (save_cover_image uuid4 cover_image st) =
     (if no_file_supplied cover_image then None
      else Some (os_path_join UPLOAD_DIR (uuid4 @ ''_'' @ the (filename (the cover_image)))))"
  by (auto simp: save_cover_image_def no_file_supplied_def truthy_def Let_def
      split: option.splits)

text \<open>
  C6. When no cover image is supplied (the file is absent, or its file name is missing
  or empty), creating a book writes no file; the row it inserts, if it inserts one, has
  a null \<open>cover_image_path\<close>, and so has the \<open>Book\<close> it returns; and the outcome, the id,
  title, author and publisher of the returned \<open>Book\<close> and of all stored rows, and the
  sequence, are the same as for the same request with any file.
\<close>

theorem C6_no_file_no_write:
  assumes "no_file_supplied cover_image"
  shows "files (snd (add_book uuid4 title_f author_f publisher_f cover_image st)) = files st
       \<and> (\<forall>b. fst (add_book uuid4 title_f author_f publisher_f cover_image st) = Inr b \<longrightarrow>
              cover_image_path b = None)
       \<and> (books (snd (add_book uuid4 title_f author_f publisher_f cover_image st)) = books st \<or>
          (\<exists>r. books (snd (add_book uuid4 title_f author_f publisher_f cover_image st)) =
                  books st @ [r] \<and> row_cover_image_path r = None))
       \<and> map_sum id (\<lambda>b. (book_id b, title b, author b, publisher b))
            (fst (add_book uuid4 title_f author_f publisher_f cover_image st)) =
          map_sum id (\<lambda>b. (book_id b, title b, author b, publisher b))
            (fst (add_book uuid4' title_f author_f publisher_f other_image st))
       \<and> map (\<lambda>r. (row_id r, row_title r, row_author r, row_publisher r))
            (books (snd (add_book uuid4 title_f author_f publisher_f cover_image st))) =
          map (\<lambda>r. (row_id r, row_title r, row_author r, row_publisher r))
            (books (snd (add_book uuid4' title_f author_f publisher_f other_image st)))
       \<and> books_id_seq (snd (add_book uuid4 title_f author_f publisher_f cover_image st)) =
          books_id_seq (snd (add_book uuid4' title_f author_f publisher_f other_image st))"
proof (cases rule: add_book_split[of title_f author_f publisher_f st])
  case rejected
  then show ?thesis by simp
next
  case (accepted t a)
  note none = save_cover_image_none[OF assms, of uuid4 st]
  show ?thesis
    by (simp add: accepted(4) add_book_body_eq none save_cover_image_frame make_Book_def)
qed

text \<open>
  The scenario of the specification: "Dune" by Frank Herbert, publisher "Ace", no file,
  on the empty table.
\<close>

lemma ex_create_dune:
  "add_book ''123e4567-e89b-42d3-a456-426614174000''
     (Some ''Dune'') (Some ''Frank Herbert'') (Some ''Ace'') None init_state =
   (Inr \<lparr>book_id = 1, title = ''Dune'', author = ''Frank Herbert'', publisher = Some ''Ace'',
         cover_image_path = None\<rparr>,
    \<lparr>books = [\<lparr>row_id = 1, row_title = ''Dune'', row_author = ''Frank Herbert'',
               row_publisher = Some ''Ace'', row_cover_image_path = None\<rparr>],
     books_id_seq = 2, files = []\<rparr>)"
  by code_simp

theorem C6_no_file_no_write_witness:
  "no_file_supplied None
   \<and> add_book ''123e4567-e89b-42d3-a456-426614174000''
       (Some ''Dune'') (Some ''Frank Herbert'') (Some ''Ace'') None init_state =
     (Inr \<lparr>book_id = 1, title = ''Dune'', author = ''Frank Herbert'', publisher = Some ''Ace'',
           cover_image_path = None\<rparr>,
      \<lparr>books = [\<lparr>row_id = 1, row_title = ''Dune'', row_author = ''Frank Herbert'',
                 row_publisher = Some ''Ace'', row_cover_image_path = None\<rparr>],
       books_id_seq = 2, files = []\<rparr>)
   \<and> files (snd (add_book ''123e4567-e89b-42d3-a456-426614174000''
       (Some ''Dune'') (Some ''Frank Herbert'') (Some ''Ace'') None init_state)) = files init_state"
proof -
  have h: "no_file_supplied None" by (simp add: no_file_supplied_def)
  note t = C6_no_file_no_write[OF h, of "''123e4567-e89b-42d3-a456-426614174000''"
      "Some ''Dune''" "Some ''Frank Herbert''" "Some ''Ace''" init_state]
  show ?thesis using h t ex_create_dune by simp
qed

text \<open>
  C8. When creating a book succeeds (status 201), the returned \<open>Book\<close> holds the id the
  sequence generated, the title and the author with the whitespace at both ends removed
  (and nothing else), the publisher trimmed, or null when none was given, and the path
  of the cover image, null when no file was supplied; the row appended to the table
  holds exactly the same five values.
\<close>

theorem C8_created_book_trimmed:
  assumes "add_book uuid4 title_f author_f publisher_f cover_image st = (Inr b, st')"
  shows "\<exists>t a. title_f = Some t \<and> author_f = Some a
       \<and> status_code 201 (fst (add_book uuid4 title_f author_f publisher_f cover_image st)) = 201
       \<and> book_id b = books_id_seq st
       \<and> title b = strip t \<and> author b = strip a
       \<and> publisher b =
           (case publisher_f of None \<Rightarrow> None
            | Some p \<Rightarrow> if p = [] then None else Some (strip p))
       \<and> cover_image_path b =
           (if no_file_supplied cover_image then None
            else Some (os_path_join UPLOAD_DIR (uuid4 @ ''_'' @ the (filename (the cover_image)))))
       \<and> books st' = books st @
           [\<lparr>row_id = book_id b, row_title = title b, row_author = author b,
             row_publisher = publisher b, row_cover_image_path = cover_image_path b\<rparr>]
       \<and> books_id_seq st' = book_id b + 1
       \<and> (\<exists>l r. t = l @ title b @ r \<and> list_all isspace l \<and> list_all isspace r)
       \<and> \<not> isspace (hd (title b)) \<and> \<not> isspace (last (title b))
       \<and> (\<exists>l r. a = l @ author b @ r \<and> list_all isspace l \<and> list_all isspace r)
       \<and> \<not> isspace (hd (author b)) \<and> \<not> isspace (last (author b))"
proof -
  from assms obtain t a where t: "title_f = Some t" and a: "author_f = Some a"
    and p: "Form_optional 3 100 publisher_f = Inr publisher_f"
    and body: "add_book_body uuid4 t a publisher_f cover_image st = (Inr b, st')"
    by (rule add_book_Inr)
  let ?pv = "if truthy publisher_f then Some (strip (the publisher_f)) else None"
  let ?cp = "fst (save_cover_image uuid4 cover_image st)"
  from body have mk: "make_Book (books_id_seq st) (strip t) (strip a) ?pv ?cp = Inr b"
    and st': "st' = (snd (save_cover_image uuid4 cover_image st))
        \<lparr>books := books st @
           [\<lparr>row_id = books_id_seq st, row_title = strip t, row_author = strip a,
             row_publisher = ?pv, row_cover_image_path = ?cp\<rparr>],
         books_id_seq := books_id_seq st + 1\<rparr>"
    by (simp_all add: add_book_body_eq)
  from mk have ok: "Book_constraints (strip t) (strip a) ?pv"
    and b: "b = \<lparr>book_id = books_id_seq st, title = strip t, author = strip a,
                 publisher = ?pv, cover_image_path = ?cp\<rparr>"
    by (auto simp: make_Book_def split: if_splits)
  have pv: "?pv = (case publisher_f of None \<Rightarrow> None
                   | Some p \<Rightarrow> if p = [] then None else Some (strip p))"
    by (simp add: truthy_def split: option.splits)
  from ok have ne: "strip t \<noteq> []" "strip a \<noteq> []"
    by (auto simp: Book_constraints_def length_ok_def)
  have "status_code 201 (fst (add_book uuid4 title_f author_f publisher_f cover_image st)) = 201"
    using assms by (simp add: status_code_def)
  moreover have "book_id b = books_id_seq st" "title b = strip t" "author b = strip a"
    using b by simp_all
  moreover have "publisher b =
           (case publisher_f of None \<Rightarrow> None
            | Some p \<Rightarrow> if p = [] then None else Some (strip p))"
    using b pv by simp
  moreover have "cover_image_path b =
           (if no_file_supplied cover_image then None
            else Some (os_path_join UPLOAD_DIR (uuid4 @ ''_'' @ the (filename (the cover_image)))))"
    using b cover_path_eq[of uuid4 cover_image st] by simp
  moreover have "books st' = books st @
           [\<lparr>row_id = book_id b, row_title = title b, row_author = author b,
             row_publisher = publisher b, row_cover_image_path = cover_image_path b\<rparr>]"
    and "books_id_seq st' = book_id b + 1"
    using b st' by simp_all
  moreover have "\<exists>l r. t = l @ title b @ r \<and> list_all isspace l \<and> list_all isspace r"
    and "\<exists>l r. a = l @ author b @ r \<and> list_all isspace l \<and> list_all isspace r"
    using b strip_trims[of t] strip_trims[of a] by simp_all
  moreover have "\<not> isspace (hd (title b))" "\<not> isspace (last (title b))"
    "\<not> isspace (hd (author b))" "\<not> isspace (last (author b))"
    using b strip_ends[OF ne(1)] strip_ends[OF ne(2)] by simp_all
  ultimately show ?thesis using t a by blast
qed

text \<open>A request with whitespace around every field and a cover image, on the empty table.\<close>

lemma ex_create_padded:
  "add_book ''123e4567-e89b-42d3-a456-426614174000''
     (Some ''  Dune '') (Some ''Frank Herbert  '') (Some '' Ace '')
     (Some \<lparr>filename = Some ''cover.png'', file_content = ''PNG''\<rparr>) init_state =
   (Inr \<lparr>book_id = 1, title = ''Dune'', author = ''Frank Herbert'', publisher = Some ''Ace'',
         cover_image_path = Some ''uploads/123e4567-e89b-42d3-a456-426614174000_cover.png''\<rparr>,
    \<lparr>books = [\<lparr>row_id = 1, row_title = ''Dune'', row_author = ''Frank Herbert'',
               row_publisher = Some ''Ace'',
               row_cover_image_path =
                 Some ''uploads/123e4567-e89b-42d3-a456-426614174000_cover.png''\<rparr>],
     books_id_seq = 2,
     files = [(''uploads/123e4567-e89b-42d3-a456-426614174000_cover.png'', ''PNG'')]\<rparr>)"
  by code_simp

lemma ex_padded_stripped:
  "strip ''  Dune '' = ''Dune''" "strip ''Frank Herbert  '' = ''Frank Herbert''"
  "strip '' Ace '' = ''Ace''"
  by code_simp+

theorem C8_created_book_trimmed_witness:
  "add_book ''123e4567-e89b-42d3-a456-426614174000''
     (Some ''  Dune '') (Some ''Frank Herbert  '') (Some '' Ace '')
     (Some \<lparr>filename = Some ''cover.png'', file_content = ''PNG''\<rparr>) init_state =
   (Inr \<lparr>book_id = 1, title = ''Dune'', author = ''Frank Herbert'', publisher = Some ''Ace'',
         cover_image_path = Some ''uploads/123e4567-e89b-42d3-a456-426614174000_cover.png''\<rparr>,
    \<lparr>books = [\<lparr>row_id = 1, row_title = ''Dune'', row_author = ''Frank Herbert'',
               row_publisher = Some ''Ace'',
               row_cover_image_path =
                 Some ''uploads/123e4567-e89b-42d3-a456-426614174000_cover.png''\<rparr>],
     books_id_seq = 2,
     files = [(''uploads/123e4567-e89b-42d3-a456-426614174000_cover.png'', ''PNG'')]\<rparr>)
   \<and> ''Dune'' = strip ''  Dune '' \<and> ''Frank Herbert'' = strip ''Frank Herbert  ''
   \<and> Some ''Ace'' = Some (strip '' Ace '')"
proof -
  note t = C8_created_book_trimmed[OF ex_create_padded]
  show ?thesis using t ex_create_padded ex_padded_stripped by simp
qed

section \<open>Requests the route stores and then fails\<close>

text \<open>
  The route checks the length of the title and of the author only when it builds the
  \<open>Book\<close> it returns, after the row is inserted and committed: whenever the form fields
  pass the declared checks, one row is appended, whatever the outcome.
\<close>

lemma add_book_inserts_before_validating:
  assumes "Form_optional 3 100 publisher_f = Inr p"
  shows "books (snd (add_book uuid4 (Some t) (Some a) publisher_f cover_image st)) =
         books st @
           [\<lparr>row_id = books_id_seq st, row_title = strip t, row_author = strip a,
             row_publisher = (if truthy p then Some (strip (the p)) else None),
             row_cover_image_path = fst (save_cover_image uuid4 cover_image st)\<rparr>]"
  by (simp add: add_book_accepted[OF assms] add_book_body_eq)

text \<open>
  C1. The claim does not hold of the code: the request with the title "Hi" (length 2)
  passes \<^verbatim>\<open>Form(...)\<close>, which declares no length; its row is inserted; and only the
  \<open>Book\<close> model, with \<open>min_length = 3\<close>, fails afterwards, inside the body, which is a
  server error (status 500) and not a client error.
\<close>

theorem C1_short_title_row_inserted:
  "add_book ''123e4567-e89b-42d3-a456-426614174000''
     (Some ''Hi'') (Some ''Frank Herbert'') None None init_state =
   (Inl ValidationError,
    \<lparr>books = [\<lparr>row_id = 1, row_title = ''Hi'', row_author = ''Frank Herbert'',
               row_publisher = None, row_cover_image_path = None\<rparr>],
     books_id_seq = 2, files = []\<rparr>)
   \<and> status_code 201 (fst (add_book ''123e4567-e89b-42d3-a456-426614174000''
        (Some ''Hi'') (Some ''Frank Herbert'') None None init_state)) = 500"
  by code_simp

text \<open>
  C2. The claim does not hold of the code: a publisher of three spaces passes the
  declared \<open>min_length = 3\<close> and is not empty, so it is stripped, and the empty string
  is stored, not null. The \<open>Book\<close> model then rejects the empty publisher, after the
  insert, and from then on listing the page that holds this row fails as well.
\<close>

theorem C2_blank_publisher_stored_empty:
  "add_book ''123e4567-e89b-42d3-a456-426614174000''
     (Some ''Dune'') (Some ''Frank Herbert'') (Some ''   '') None init_state =
   (Inl ValidationError,
    \<lparr>books = [\<lparr>row_id = 1, row_title = ''Dune'', row_author = ''Frank Herbert'',
               row_publisher = Some '''', row_cover_image_path = None\<rparr>],
     books_id_seq = 2, files = []\<rparr>)
   \<and> get_all_books None None
       (snd (add_book ''123e4567-e89b-42d3-a456-426614174000''
          (Some ''Dune'') (Some ''Frank Herbert'') (Some ''   '') None init_state)) =
     Inl ValidationError"
  by code_simp

end
